theory Spec2Isabelle
  imports Main "HOL-Library.Word"
begin

section \<open>JavaScript strings\<close>

text \<open>
  A JavaScript string is a sequence of UTF-16 code units. \<open>length\<close>, \<open>trim\<close> and a
  regular expression without the \<open>u\<close> flag all work on code units, so a string is a list
  of 16-bit words. \<open>lit\<close> turns an ASCII literal into such a string.
\<close>

type_synonym js_string = "16 word list"

definition lit :: "string \<Rightarrow> js_string" where
  "lit s = map of_char s"

text \<open>
  \<open>String.prototype.trim\<close> removes, at both ends, the code units of the WhiteSpace and
  LineTerminator productions of ECMAScript: TAB, LF, VT, FF, CR, SP, NBSP, U+1680,
  U+2000 to U+200A, U+2028, U+2029, U+202F, U+205F, U+3000 and U+FEFF.
\<close>

definition is_space :: "16 word \<Rightarrow> bool" where
  "is_space c \<longleftrightarrow>
     (0x9 \<le> c \<and> c \<le> 0xD) \<or> c = 0x20 \<or> c = 0xA0 \<or> c = 0x1680 \<or>
     (0x2000 \<le> c \<and> c \<le> 0x200A) \<or> c = 0x2028 \<or> c = 0x2029 \<or> c = 0x202F \<or>
     c = 0x205F \<or> c = 0x3000 \<or> c = 0xFEFF"

definition trim :: "js_string \<Rightarrow> js_string" where
  "trim s = rev (dropWhile is_space (rev (dropWhile is_space s)))"

text \<open>
  \<open>String.prototype.toLowerCase\<close>, on the code units up to U+00FF: the letters A to Z
  and the Latin-1 capitals U+00C0 to U+00DE (U+00D7, the multiplication sign, apart) move
  up by 0x20. Code units above U+00FF are left as they are: the Unicode case tables are
  outside this development, and no property below depends on how a code unit is mapped.
\<close>

definition lower_unit :: "16 word \<Rightarrow> 16 word" where
  "lower_unit c =
     (if (0x41 \<le> c \<and> c \<le> 0x5A) \<or> (0xC0 \<le> c \<and> c \<le> 0xDE \<and> c \<noteq> 0xD7)
      then c + 0x20 else c)"

definition toLowerCase :: "js_string \<Rightarrow> js_string" where
  "toLowerCase s = map lower_unit s"

text \<open>
  The decimal digits of a non-negative integer, as a template literal prints a number
  such as \<open>res.status\<close>.
\<close>

fun show_nat :: "nat \<Rightarrow> js_string" where
  "show_nat n =
     (if n < 10 then [0x30 + of_nat n]
      else show_nat (n div 10) @ [0x30 + of_nat (n mod 10)])"

section \<open>Regular expressions\<close>

text \<open>
  The fragment of regular expressions that \<open>/^[a-zA-Z0-9_]{4,25}$/\<close> is written in: the
  two anchors, and a character class (a list of inclusive ranges of code units) repeated
  between \<open>lo\<close> and \<open>hi\<close> times. Matching is by position: \<open>match_item s r i\<close> lists
  the positions at which a match of \<open>r\<close> that starts at position \<open>i\<close> of \<open>s\<close> may end.
  Without the \<open>m\<close> flag \<open>^\<close> matches at position 0 only and \<open>$\<close> at the end of the
  input only. \<open>RegExp.prototype.test\<close> looks for a match starting at any position.
\<close>

datatype regex_item =
    Bol
  | Eol
  | Class_rep "(16 word \<times> 16 word) list" nat nat

definition in_class :: "(16 word \<times> 16 word) list \<Rightarrow> 16 word \<Rightarrow> bool" where
  "in_class cls c = list_ex (\<lambda>(lo, hi). lo \<le> c \<and> c \<le> hi) cls"

fun match_item :: "js_string \<Rightarrow> regex_item \<Rightarrow> nat \<Rightarrow> nat list" where
  "match_item s Bol i = (if i = 0 then [i] else [])"
| "match_item s Eol i = (if i = length s then [i] else [])"
| "match_item s (Class_rep cls lo hi) i =
     map (\<lambda>k. i + k)
       (filter (\<lambda>k. i + k \<le> length s \<and> list_all (in_class cls) (take k (drop i s)))
          [lo ..< Suc hi])"

fun match_seq :: "js_string \<Rightarrow> regex_item list \<Rightarrow> nat \<Rightarrow> nat list" where
  "match_seq s [] i = [i]"
| "match_seq s (r # rs) i = concat (map (match_seq s rs) (match_item s r i))"

definition regex_test :: "regex_item list \<Rightarrow> js_string \<Rightarrow> bool" where
  "regex_test rs s = list_ex (\<lambda>i. match_seq s rs i \<noteq> []) [0 ..< Suc (length s)]"

section \<open>The input validator\<close>

text \<open>\<open>/^[a-zA-Z0-9_]{4,25}$/\<close>\<close>

definition username_regex :: "regex_item list" where
  "username_regex =
     [Bol, Class_rep [(0x61, 0x7A), (0x41, 0x5A), (0x30, 0x39), (0x5F, 0x5F)] 4 25, Eol]"

definition isValidUsername :: "js_string \<Rightarrow> bool" where
  "isValidUsername name = regex_test username_regex name"

text \<open>
  The rule in the specification's words: only ASCII letters, digits and underscores, and
  a length between 4 and 25.
\<close>

definition ascii_letter :: "16 word \<Rightarrow> bool" where
  "ascii_letter c \<longleftrightarrow> (0x41 \<le> c \<and> c \<le> 0x5A) \<or> (0x61 \<le> c \<and> c \<le> 0x7A)"

definition ascii_digit :: "16 word \<Rightarrow> bool" where
  "ascii_digit c \<longleftrightarrow> 0x30 \<le> c \<and> c \<le> 0x39"

definition spec_valid :: "js_string \<Rightarrow> bool" where
  "spec_valid s \<longleftrightarrow>
     list_all (\<lambda>c. ascii_letter c \<or> ascii_digit c \<or> c = 0x5F) s \<and>
     4 \<le> length s \<and> length s \<le> 25"

section \<open>Values, exceptions and JSON\<close>

text \<open>
  The values that \<open>JSON.parse\<close> can return. An object is the list of its own
  properties in enumeration order; a property is read with \<open>map_of\<close>. \<open>JNum\<close> stands for
  the integers that JSON text writes and reads back unchanged; the program never looks
  at a number.
\<close>

datatype js_value =
    JNull
  | JBool bool
  | JNum int
  | JStr js_string
  | JArr "js_value list"
  | JObj "(js_string \<times> js_value) list"

text \<open>
  What a \<open>throw\<close> or a rejected promise carries. \<open>Error m\<close> is an instance of \<open>Error\<close>
  (or of a subclass) whose message \<open>m\<close> is given by the program or by the environment;
  \<open>SyntaxError\<close> and \<open>TypeError\<close> are the errors that the engine raises by itself, with
  a message of the engine's choice; \<open>NotAnError\<close> is any thrown value that is not an
  instance of \<open>Error\<close>.
\<close>

datatype thrown = Error js_string | SyntaxError | TypeError | NotAnError

text \<open>
  A text handed to \<open>JSON.parse\<close> is represented by what the parser makes of it: either
  it is not JSON, or it is the JSON text of a value. \<open>JSON.stringify\<close> of a value that
  came from the parser, or of an object literal with string and boolean fields, is a text
  that parses back to this value.
\<close>

datatype json_text = NotJson | Json js_value

definition JSON_parse :: "json_text \<Rightarrow> thrown + js_value" where
  "JSON_parse t = (case t of NotJson \<Rightarrow> Inl SyntaxError | Json v \<Rightarrow> Inr v)"

definition JSON_stringify :: "js_value \<Rightarrow> json_text" where
  "JSON_stringify v = Json v"

text \<open>
  Reading a property \<open>v.k\<close>, for a name \<open>k\<close> that no built-in prototype defines
  (\<open>username\<close>, \<open>exists\<close>): \<open>None\<close> is \<open>undefined\<close>. Reading a property of \<open>null\<close>
  raises a TypeError.
\<close>

fun get_prop :: "js_value \<Rightarrow> js_string \<Rightarrow> thrown + js_value option" where
  "get_prop JNull k = Inl TypeError"
| "get_prop (JObj kvs) k = Inr (map_of kvs k)"
| "get_prop _ k = Inr None"

text \<open>
  The call \<open>v.toLowerCase()\<close>: only a string has this method. On \<open>undefined\<close> and
  \<open>null\<close> the property read fails, on every other parsed value the property is not a
  function; both raise a TypeError.
\<close>

fun call_toLowerCase :: "js_value option \<Rightarrow> thrown + js_string" where
  "call_toLowerCase (Some (JStr s)) = Inr (toLowerCase s)"
| "call_toLowerCase _ = Inl TypeError"

text \<open>The operator \<open>!\<close>: true on the falsy values.\<close>

fun js_not :: "js_value option \<Rightarrow> bool" where
  "js_not None = True"
| "js_not (Some JNull) = True"
| "js_not (Some (JBool b)) = (\<not> b)"
| "js_not (Some (JNum n)) = (n = 0)"
| "js_not (Some (JStr s)) = (s = [])"
| "js_not (Some (JArr xs)) = False"
| "js_not (Some (JObj kvs)) = False"

text \<open>
  \<open>Array.prototype.filter\<close> with a callback that may throw: the elements are visited in
  order and the first exception ends the call.
\<close>

fun filter_js :: "(js_value \<Rightarrow> thrown + bool) \<Rightarrow> js_value list \<Rightarrow> thrown + js_value list" where
  "filter_js p [] = Inr []"
| "filter_js p (x # xs) =
     (case p x of
        Inl e \<Rightarrow> Inl e
      | Inr b \<Rightarrow>
          (case filter_js p xs of
             Inl e \<Rightarrow> Inl e
           | Inr ys \<Rightarrow> Inr (if b then x # ys else ys)))"

text \<open>The call \<open>v.filter(p)\<close>: only an array has this method.\<close>

fun call_filter :: "js_value \<Rightarrow> (js_value \<Rightarrow> thrown + bool) \<Rightarrow> thrown + js_value list" where
  "call_filter (JArr xs) p = filter_js p xs"
| "call_filter _ p = Inl TypeError"

section \<open>The history store\<close>

record CheckResult =
  username :: js_string
  available :: bool
  checkedAt :: js_string

text \<open>The object that the literal \<open>{username, available, checkedAt}\<close> creates.\<close>

definition object_of :: "CheckResult \<Rightarrow> js_value" where
  "object_of e =
     JObj [(lit ''username'', JStr (username e)),
           (lit ''available'', JBool (available e)),
           (lit ''checkedAt'', JStr (checkedAt e))]"

definition MAX_HISTORY :: nat where
  "MAX_HISTORY = 5"

text \<open>
  The item of \<open>localStorage\<close> under \<open>HISTORY_KEY\<close>: \<open>None\<close> when \<open>getItem\<close> returns
  \<open>null\<close>. The storage is taken to be readable and to have room for the five entries.
\<close>

type_synonym localStorage = "json_text option"

text \<open>
  \<open>loadHistory\<close>: the \<open>try\<close> block parses the item, or \<open>"[]"\<close> when there is none, and
  the \<open>catch\<close> block returns the empty array. The result is declared \<open>CheckResult[]\<close>;
  at run time it is whatever the parser returned.
\<close>

definition loadHistory :: "localStorage \<Rightarrow> thrown + js_value" where
  "loadHistory ls =
     (case JSON_parse (case ls of None \<Rightarrow> Json (JArr []) | Some t \<Rightarrow> t) of
        Inl e \<Rightarrow> Inr (JArr [])
      | Inr v \<Rightarrow> Inr v)"

text \<open>The callback of the filter: \<open>h.username.toLowerCase() !== entry.username.toLowerCase()\<close>.\<close>

definition other_user :: "CheckResult \<Rightarrow> js_value \<Rightarrow> thrown + bool" where
  "other_user entry h =
     (case get_prop h (lit ''username'') of
        Inl e \<Rightarrow> Inl e
      | Inr u \<Rightarrow>
          (case call_toLowerCase u of
             Inl e \<Rightarrow> Inl e
           | Inr l \<Rightarrow> Inr (l \<noteq> toLowerCase (username entry))))"

text \<open>
  \<open>saveToHistory\<close> returns the updated array together with the storage it has written;
  an exception leaves the storage as it was.
\<close>

definition saveToHistory ::
  "localStorage \<Rightarrow> CheckResult \<Rightarrow> thrown + (js_value list \<times> localStorage)" where
  "saveToHistory ls entry =
     (case loadHistory ls of
        Inl e \<Rightarrow> Inl e
      | Inr history \<Rightarrow>
          (case call_filter history (other_user entry) of
             Inl e \<Rightarrow> Inl e
           | Inr filtered \<Rightarrow>
               (let updated = take MAX_HISTORY (object_of entry # filtered)
                in Inr (updated, Some (JSON_stringify (JArr updated))))))"

text \<open>A sequence of appends, each on the storage that the one before has written.\<close>

fun appends :: "localStorage \<Rightarrow> CheckResult list \<Rightarrow> thrown + localStorage" where
  "appends ls [] = Inr ls"
| "appends ls (e # es) =
     (case saveToHistory ls e of
        Inl x \<Rightarrow> Inl x
      | Inr (updated, ls') \<Rightarrow> appends ls' es)"

section \<open>The component\<close>

text \<open>
  The state of the component: its five state variables, the storage item, and the log of
  the \<open>login\<close> parameters for which \<open>fetch\<close> has been called (\<open>encodeURIComponent\<close> leaves
  the characters of a valid name as they are). The state variable \<open>username\<close> is the
  field \<open>username_input\<close>.
\<close>

record app_state =
  username_input :: js_string
  result :: "CheckResult option"
  loading :: bool
  error :: "js_string option"
  history :: js_value
  storage :: localStorage
  requests :: "js_string list"

text \<open>
  What the environment does during one check: \<open>fetch\<close> either rejects or resolves to a
  response with a status and with the outcome of \<open>res.json()\<close>; \<open>now\<close> is
  \<open>new Date().toISOString()\<close>; \<open>engine_message\<close> is the message of a TypeError that
  the engine raises.
\<close>

datatype fetch_outcome = Rejected thrown | Response nat "thrown + js_value"

record environment =
  fetch :: fetch_outcome
  now :: js_string
  engine_message :: js_string

definition validation_message :: js_string where
  "validation_message =
     lit ''Usernames must be 4'' @ [0x2013] @
     lit ''25 characters: letters, numbers, and underscores only.''"

definition network_message :: js_string where
  "network_message =
     lit ''Network error '' @ [0x2014] @ lit '' check your connection and try again.''"

text \<open>\<open>res.ok\<close>\<close>

definition ok :: "nat \<Rightarrow> bool" where
  "ok status \<longleftrightarrow> 200 \<le> status \<and> status \<le> 299"

text \<open>\<open>err instanceof Error ? err.message : "Network error ..."\<close>\<close>

fun message_of :: "environment \<Rightarrow> thrown \<Rightarrow> js_string" where
  "message_of env (Error m) = m"
| "message_of env SyntaxError = engine_message env"
| "message_of env TypeError = engine_message env"
| "message_of env NotAnError = network_message"

text \<open>
  The \<open>try\<close> block of \<open>checkUsername\<close>: the state it has reached, and the exception that
  ended it, if any.
\<close>

definition try_block :: "environment \<Rightarrow> js_string \<Rightarrow> app_state \<Rightarrow> thrown option \<times> app_state" where
  "try_block env trimmed st =
     (let st = st\<lparr>requests := requests st @ [trimmed]\<rparr> in
      case fetch env of
        Rejected e \<Rightarrow> (Some e, st)
      | Response status body \<Rightarrow>
          if \<not> ok status then (Some (Error (lit ''API error: '' @ show_nat status)), st)
          else
            (case body of
               Inl e \<Rightarrow> (Some e, st)
             | Inr data \<Rightarrow>
                 (case get_prop data (lit ''exists'') of
                    Inl e \<Rightarrow> (Some e, st)
                  | Inr ex \<Rightarrow>
                      (let entry = \<lparr>username = trimmed, available = js_not ex,
                                    checkedAt = now env\<rparr>;
                           st = st\<lparr>result := Some entry\<rparr>
                       in case saveToHistory (storage st) entry of
                            Inl e \<Rightarrow> (Some e, st)
                          | Inr (updated, ls) \<Rightarrow>
                              (None, st\<lparr>history := JArr updated, storage := ls\<rparr>)))))"

text \<open>\<open>(nameOverride ?? username).trim()\<close>\<close>

definition trimmed_name :: "js_string option \<Rightarrow> app_state \<Rightarrow> js_string" where
  "trimmed_name nameOverride st =
     trim (case nameOverride of None \<Rightarrow> username_input st | Some n \<Rightarrow> n)"

text \<open>
  \<open>checkUsername\<close>, from the call to the moment its promise settles. The empty string
  is the one falsy string.
\<close>

definition checkUsername :: "environment \<Rightarrow> js_string option \<Rightarrow> app_state \<Rightarrow> app_state" where
  "checkUsername env nameOverride st =
     (let trimmed = trimmed_name nameOverride st in
      if trimmed = [] then st
      else if \<not> isValidUsername trimmed then
        st\<lparr>error := Some validation_message, result := None\<rparr>
      else
        (let st = st\<lparr>loading := True, error := None, result := None\<rparr> in
         let st = (case try_block env trimmed st of
                     (None, st') \<Rightarrow> st'
                   | (Some err, st') \<Rightarrow> st'\<lparr>error := Some (message_of env err)\<rparr>)
         in st\<lparr>loading := False\<rparr>))"

section \<open>Notions of the specification\<close>

text \<open>
  The append of the specification, on a list of entries: remove the entries with the
  same username up to case, put the new entry in front, keep at most five.
\<close>

definition same_user :: "CheckResult \<Rightarrow> CheckResult \<Rightarrow> bool" where
  "same_user a b \<longleftrightarrow> toLowerCase (username a) = toLowerCase (username b)"

definition append_spec :: "CheckResult list \<Rightarrow> CheckResult \<Rightarrow> CheckResult list" where
  "append_spec h e = take 5 (e # filter (\<lambda>x. \<not> same_user x e) h)"

text \<open>
  A stored item that holds a history: there is none, or it is not JSON, or it is an array
  of objects that each have a string \<open>username\<close>, whatever their other properties.
\<close>

definition entry_like :: "js_value \<Rightarrow> bool" where
  "entry_like h =
     (case h of
        JObj kvs \<Rightarrow> (case map_of kvs (lit ''username'') of Some (JStr s) \<Rightarrow> True | _ \<Rightarrow> False)
      | _ \<Rightarrow> False)"

definition well_formed :: "localStorage \<Rightarrow> bool" where
  "well_formed ls =
     (case ls of
        None \<Rightarrow> True
      | Some NotJson \<Rightarrow> True
      | Some (Json v) \<Rightarrow> (case v of JArr xs \<Rightarrow> list_all entry_like xs | _ \<Rightarrow> False))"

text \<open>
  The message as the specification quotes it.
\<close>

definition spec_validation_message :: js_string where
  "spec_validation_message =
     lit ''identifiers must be 4'' @ [0x2013] @
     lit ''25 characters: letters, numbers, and underscores only''"

section \<open>Sample data\<close>

text \<open>Entries and states on which the results below are instantiated.\<close>

definition sample :: "string \<Rightarrow> bool \<Rightarrow> CheckResult" where
  "sample n a =
     \<lparr>username = lit n, available = a, checkedAt = lit ''2024-01-01T00:00:00.000Z''\<rparr>"

definition fresh_state :: app_state where
  "fresh_state =
     \<lparr>username_input = [], result = None, loading = False, error = None,
      history = JArr [], storage = None, requests = []\<rparr>"

definition sample_env :: "fetch_outcome \<Rightarrow> environment" where
  "sample_env f =
     \<lparr>fetch = f, now = lit ''2024-01-02T00:00:00.000Z'',
      engine_message = lit ''history.filter is not a function''\<rparr>"

section \<open>Results on the input validator\<close>

lemma word_class:
  "in_class [(0x61, 0x7A), (0x41, 0x5A), (0x30, 0x39), (0x5F, 0x5F)] c \<longleftrightarrow>
     ascii_letter c \<or> ascii_digit c \<or> c = 0x5F"
  by (auto simp: in_class_def ascii_letter_def ascii_digit_def)

lemma match_eol: "match_seq s [Eol] j = (if j = length s then [j] else [])"
  by simp

lemma match_rep_eol:
  "match_seq s [Class_rep cls lo hi, Eol] 0 \<noteq> [] \<longleftrightarrow>
     lo \<le> length s \<and> length s \<le> hi \<and> list_all (in_class cls) s"
proof -
  have "match_seq s [Class_rep cls lo hi, Eol] 0 \<noteq> [] \<longleftrightarrow>
        (\<exists>k \<in> set [lo ..< Suc hi].
           k \<le> length s \<and> list_all (in_class cls) (take k s) \<and> k = length s)"
    by (simp only: match_seq.simps(2) match_item.simps match_eol) (auto simp: concat_eq_Nil_conv)
  also have "\<dots> \<longleftrightarrow> lo \<le> length s \<and> length s \<le> hi \<and> list_all (in_class cls) s"
    by auto
  finally show ?thesis .
qed

lemma match_bol:
  "match_seq s (Bol # rs) i \<noteq> [] \<longleftrightarrow> i = 0 \<and> match_seq s rs 0 \<noteq> []"
  by simp

lemma regex_test_bol:
  "regex_test (Bol # rs) s \<longleftrightarrow> match_seq s rs 0 \<noteq> []"
  unfolding regex_test_def list_ex_iff match_bol by auto

lemma isValidUsername_iff: "isValidUsername s \<longleftrightarrow> spec_valid s"
  unfolding isValidUsername_def username_regex_def regex_test_bol match_rep_eol spec_valid_def
  by (auto simp: word_class list_all_iff)

lemma spec_valid_not_empty: "spec_valid s \<Longrightarrow> s \<noteq> []"
  by (auto simp: spec_valid_def)

lemma trim_blank: "list_all is_space s \<Longrightarrow> trim s = []"
  by (auto simp: trim_def list_all_iff dest: set_dropWhileD)

lemma requests_try_block:
  "requests (snd (try_block env t st)) = requests st @ [t]"
  by (simp add: try_block_def Let_def split: fetch_outcome.splits sum.splits prod.splits)

lemma checkUsername_blank:
  "trimmed_name nameOverride st = [] \<Longrightarrow> checkUsername env nameOverride st = st"
  by (simp add: checkUsername_def)

lemma checkUsername_invalid:
  "trimmed_name nameOverride st \<noteq> [] \<Longrightarrow> \<not> isValidUsername (trimmed_name nameOverride st) \<Longrightarrow>
     checkUsername env nameOverride st = st\<lparr>error := Some validation_message, result := None\<rparr>"
  by (simp add: checkUsername_def)

lemma checkUsername_valid:
  assumes "isValidUsername (trimmed_name nameOverride st)"
  shows "checkUsername env nameOverride st =
           (case try_block env (trimmed_name nameOverride st)
                   (st\<lparr>loading := True, error := None, result := None\<rparr>) of
              (None, st') \<Rightarrow> st'\<lparr>loading := False\<rparr>
            | (Some err, st') \<Rightarrow> st'\<lparr>error := Some (message_of env err), loading := False\<rparr>)"
proof -
  from assms have "trimmed_name nameOverride st \<noteq> []"
    by (simp add: isValidUsername_iff spec_valid_not_empty)
  with assms show ?thesis
    by (simp add: checkUsername_def Let_def split: prod.splits option.splits)
qed

lemma requests_checkUsername:
  "requests (checkUsername env nameOverride st) =
     (if isValidUsername (trimmed_name nameOverride st)
      then requests st @ [trimmed_name nameOverride st] else requests st)"
proof (cases "isValidUsername (trimmed_name nameOverride st)")
  case True
  let ?st = "st\<lparr>loading := True, error := None, result := None\<rparr>"
  obtain r st' where tb: "try_block env (trimmed_name nameOverride st) ?st = (r, st')"
    by (cases "try_block env (trimmed_name nameOverride st) ?st")
  from requests_try_block [of env "trimmed_name nameOverride st" ?st] tb
  have "requests st' = requests st @ [trimmed_name nameOverride st]" by simp
  with True tb show ?thesis
    by (simp add: checkUsername_valid split: option.splits)
next
  case False
  then show ?thesis
    by (cases "trimmed_name nameOverride st = []")
       (simp_all add: checkUsername_blank checkUsername_invalid)
qed

text \<open>
  C4. The validator, applied to the trimmed input as \<open>checkUsername\<close> applies it, accepts
  exactly the strings of 4 to 25 ASCII letters, digits and underscores; a request is sent
  for the accepted strings and for no other.
\<close>

theorem validator_accepts_exactly_the_rule:
  "(isValidUsername (trim s) \<longleftrightarrow> spec_valid (trim s)) \<and>
   requests (checkUsername env (Some s) st) =
     (if spec_valid (trim s) then requests st @ [trim s] else requests st)"
  using requests_checkUsername [of env "Some s" st]
  by (simp add: isValidUsername_iff trimmed_name_def)

theorem validator_accepts_exactly_the_rule_witness:
  "isValidUsername (trim (lit '' shroud_1 '')) \<and>
   \<not> isValidUsername (trim (lit ''@shroud'')) \<and>
   \<not> isValidUsername (trim (lit ''abc'')) \<and>
   requests (checkUsername (sample_env (Rejected NotAnError)) (Some (lit '' shroud_1 ''))
     fresh_state) = [lit ''shroud_1''] \<and>
   requests (checkUsername (sample_env (Rejected NotAnError)) (Some (lit ''@shroud''))
     fresh_state) = []"
proof -
  have a: "trim (lit '' shroud_1 '') = lit ''shroud_1''"
    by (simp add: trim_def lit_def is_space_def)
  have b: "trim (lit ''@shroud'') = lit ''@shroud''"
    by (simp add: trim_def lit_def is_space_def)
  have c: "trim (lit ''abc'') = lit ''abc''"
    by (simp add: trim_def lit_def is_space_def)
  have va: "spec_valid (lit ''shroud_1'')"
    by (simp add: spec_valid_def lit_def ascii_letter_def ascii_digit_def)
  have vb: "\<not> spec_valid (lit ''@shroud'')"
    by (simp add: spec_valid_def lit_def ascii_letter_def ascii_digit_def)
  have vc: "\<not> spec_valid (lit ''abc'')"
    by (simp add: spec_valid_def lit_def)
  show ?thesis
    using validator_accepts_exactly_the_rule
            [of "lit '' shroud_1 ''" "sample_env (Rejected NotAnError)" fresh_state]
          validator_accepts_exactly_the_rule
            [of "lit ''@shroud''" "sample_env (Rejected NotAnError)" fresh_state]
          validator_accepts_exactly_the_rule
            [of "lit ''abc''" "sample_env (Rejected NotAnError)" fresh_state]
    by (simp add: a b c va vb vc fresh_state_def)
qed

text \<open>
  C5, as amended. When the trimmed input is not empty and fails the rule, the check sends
  no request, sets the error to "Usernames must be 4-25 characters: letters, numbers, and
  underscores only." (with an en dash) and clears the result; nothing else changes.
\<close>

theorem invalid_name_reports_message:
  assumes "trimmed_name nameOverride st \<noteq> []"
    and "\<not> spec_valid (trimmed_name nameOverride st)"
  shows "checkUsername env nameOverride st =
           st\<lparr>error := Some validation_message, result := None\<rparr> \<and>
         requests (checkUsername env nameOverride st) = requests st"
  using assms by (simp add: checkUsername_invalid isValidUsername_iff)

theorem invalid_name_reports_message_witness:
  "trimmed_name (Some (lit ''ab'')) (fresh_state\<lparr>result := Some (sample ''shroud'' False)\<rparr>) \<noteq> [] \<and>
   \<not> spec_valid
       (trimmed_name (Some (lit ''ab'')) (fresh_state\<lparr>result := Some (sample ''shroud'' False)\<rparr>)) \<and>
   checkUsername (sample_env (Rejected NotAnError)) (Some (lit ''ab''))
       (fresh_state\<lparr>result := Some (sample ''shroud'' False)\<rparr>) =
     fresh_state\<lparr>error := Some validation_message\<rparr>"
proof -
  let ?st = "fresh_state\<lparr>result := Some (sample ''shroud'' False)\<rparr>"
  have t: "trimmed_name (Some (lit ''ab'')) ?st = lit ''ab''"
    by (simp add: trimmed_name_def trim_def lit_def is_space_def)
  have n: "trimmed_name (Some (lit ''ab'')) ?st \<noteq> []"
    unfolding t by (simp add: lit_def)
  have v: "\<not> spec_valid (trimmed_name (Some (lit ''ab'')) ?st)"
    unfolding t by (simp add: spec_valid_def lit_def)
  from invalid_name_reports_message [OF n v, of "sample_env (Rejected NotAnError)"] n v
  show ?thesis by (simp add: fresh_state_def)
qed

text \<open>
  The claim as it is written fails twice. The empty input fails the rule, yet the check
  reports nothing and keeps the earlier result; and on the input "ab" the message set is
  not the one the specification quotes.
\<close>

theorem invalid_name_message_counterexample:
  "\<not> spec_valid (trim []) \<and>
   error (checkUsername (sample_env (Rejected NotAnError)) (Some [])
           (fresh_state\<lparr>result := Some (sample ''shroud'' False)\<rparr>)) = None \<and>
   result (checkUsername (sample_env (Rejected NotAnError)) (Some [])
           (fresh_state\<lparr>result := Some (sample ''shroud'' False)\<rparr>)) =
     Some (sample ''shroud'' False) \<and>
   \<not> spec_valid (trim (lit ''ab'')) \<and>
   error (checkUsername (sample_env (Rejected NotAnError)) (Some (lit ''ab'')) fresh_state)
     \<noteq> Some spec_validation_message"
proof -
  have t: "trim (lit ''ab'') = lit ''ab''"
    by (simp add: trim_def lit_def is_space_def)
  have e: "checkUsername (sample_env (Rejected NotAnError)) (Some [])
             (fresh_state\<lparr>result := Some (sample ''shroud'' False)\<rparr>) =
           fresh_state\<lparr>result := Some (sample ''shroud'' False)\<rparr>"
    by (simp add: checkUsername_blank trimmed_name_def trim_def)
  have t': "trimmed_name (Some (lit ''ab'')) fresh_state = lit ''ab''"
    by (simp add: trimmed_name_def t)
  have s: "\<not> spec_valid (lit ''ab'')"
    by (simp add: spec_valid_def lit_def)
  have i: "checkUsername (sample_env (Rejected NotAnError)) (Some (lit ''ab'')) fresh_state =
           fresh_state\<lparr>error := Some validation_message, result := None\<rparr>"
  proof (rule checkUsername_invalid)
    show "trimmed_name (Some (lit ''ab'')) fresh_state \<noteq> []"
      unfolding t' by (simp add: lit_def)
    show "\<not> isValidUsername (trimmed_name (Some (lit ''ab'')) fresh_state)"
      unfolding t' isValidUsername_iff by (rule s)
  qed
  have m: "validation_message \<noteq> spec_validation_message"
    by (simp add: validation_message_def spec_validation_message_def lit_def)
  have z: "\<not> spec_valid (trim [])"
    by (simp add: spec_valid_def trim_def)
  have p: "error (fresh_state\<lparr>result := Some (sample ''shroud'' False)\<rparr>) = None"
    by (simp add: fresh_state_def)
  show ?thesis
    unfolding e i t using z s m p by simp
qed

text \<open>
  C10. When the input is empty or consists of white space only, \<open>checkUsername\<close> returns
  the state it was given: no request, no error, no change of the result, of the history or
  of the storage; whether the input is the argument or the state variable.
\<close>

theorem blank_input_is_no_op:
  assumes "list_all is_space s"
  shows "checkUsername env (Some s) st = st \<and>
         checkUsername env None (st\<lparr>username_input := s\<rparr>) = st\<lparr>username_input := s\<rparr>"
  using assms by (simp add: checkUsername_blank trimmed_name_def trim_blank)

theorem blank_input_is_no_op_witness:
  "list_all is_space [0x20, 0x9, 0xA0] \<and>
   checkUsername (sample_env (Response 200 (Inr (JObj [(lit ''exists'', JBool True)]))))
     (Some [0x20, 0x9, 0xA0]) (fresh_state\<lparr>result := Some (sample ''shroud'' False)\<rparr>) =
     fresh_state\<lparr>result := Some (sample ''shroud'' False)\<rparr>"
proof -
  have b: "list_all is_space [0x20, 0x9, 0xA0]"
    by (simp add: is_space_def)
  from blank_input_is_no_op [OF b] b show ?thesis by simp
qed

section \<open>Results on the history store: appends on a list of entries\<close>


lemma loadHistory_simps:
  "loadHistory None = Inr (JArr [])"
  "loadHistory (Some NotJson) = Inr (JArr [])"
  "loadHistory (Some (Json v)) = Inr v"
  by (simp_all add: loadHistory_def JSON_parse_def)

lemma other_user_object_of:
  "other_user e (object_of x) = Inr (\<not> same_user x e)"
  by (simp add: other_user_def object_of_def same_user_def lit_def)

lemma filter_js_objects:
  "filter_js (other_user e) (map object_of h) =
     Inr (map object_of (filter (\<lambda>x. \<not> same_user x e) h))"
  by (induction h) (simp_all add: other_user_object_of)

lemma saveToHistory_typed:
  assumes "loadHistory ls = Inr (JArr (map object_of h))"
  shows "saveToHistory ls e =
           Inr (map object_of (append_spec h e),
                Some (Json (JArr (map object_of (append_spec h e)))))"
  using assms
  by (simp add: saveToHistory_def filter_js_objects append_spec_def MAX_HISTORY_def
      JSON_stringify_def take_map Let_def)

lemma appends_typed:
  "loadHistory ls = Inr (JArr (map object_of h)) \<Longrightarrow>
     \<exists>ls'. appends ls es = Inr ls' \<and>
           loadHistory ls' = Inr (JArr (map object_of (foldl append_spec h es)))"
proof (induction es arbitrary: ls h)
  case Nil
  then show ?case by simp
next
  case (Cons e es)
  have "loadHistory (Some (Json (JArr (map object_of (append_spec h e))))) =
          Inr (JArr (map object_of (append_spec h e)))"
    by (rule loadHistory_simps)
  from Cons.IH [OF this] show ?case
    by (simp add: saveToHistory_typed [OF Cons.prems])
qed

lemma length_append_spec: "length (append_spec h e) \<le> 5"
  by (simp add: append_spec_def)

lemma length_foldl_append_spec: "length (foldl append_spec [] es) \<le> 5"
  by (induction es rule: rev_induct) (simp_all add: length_append_spec)

lemma distinct_append_spec:
  assumes "distinct (map (\<lambda>x. toLowerCase (username x)) h)"
  shows "distinct (map (\<lambda>x. toLowerCase (username x)) (append_spec h e))"
proof -
  let ?k = "\<lambda>x. toLowerCase (username x)"
  have "distinct (map ?k (e # filter (\<lambda>x. \<not> same_user x e) h))"
    using assms by (auto simp: distinct_map_filter same_user_def)
  then have "distinct (take 5 (map ?k (e # filter (\<lambda>x. \<not> same_user x e) h)))"
    by (rule distinct_take)
  then show ?thesis
    by (simp only: append_spec_def take_map)
qed

lemma distinct_foldl_append_spec:
  "distinct (map (\<lambda>x. toLowerCase (username x)) (foldl append_spec [] es))"
  by (induction es rule: rev_induct) (simp_all add: distinct_append_spec)

lemma object_of_inj: "object_of a = object_of b \<longleftrightarrow> a = b"
  by (cases a, cases b) (auto simp: object_of_def)

lemma map_object_of_inj: "map object_of h = map object_of h' \<longleftrightarrow> h = h'"
proof -
  have "inj object_of"
    by (rule injI) (simp add: object_of_inj)
  then show ?thesis by (simp add: inj_map_eq_map)
qed

lemma same_user_sample:
  "same_user (sample n a) (sample m b) \<longleftrightarrow> toLowerCase (lit n) = toLowerCase (lit m)"
  by (simp add: same_user_def sample_def)

lemma saveToHistory_stored:
  "saveToHistory (Some (Json (JArr (map object_of h)))) e =
     Inr (map object_of (append_spec h e),
          Some (Json (JArr (map object_of (append_spec h e)))))"
  by (rule saveToHistory_typed) (simp add: loadHistory_simps)

lemma saveToHistory_absent:
  "saveToHistory None e = Inr (map object_of [e], Some (Json (JArr (map object_of [e]))))"
  using saveToHistory_typed [of None "[]" e]
  by (simp add: loadHistory_simps append_spec_def)

text \<open>
  C1. After any sequence of appends that starts from an empty history, the stored list
  has at most five entries. A further append returns and stores the list that begins with
  the new entry, followed by the remaining entries in their order; what is dropped is the
  end of that list, and only beyond five entries.
\<close>

theorem history_never_exceeds_capacity:
  "\<exists>ls h. appends None es = Inr ls \<and> loadHistory ls = Inr (JArr (map object_of h)) \<and>
      length h \<le> MAX_HISTORY \<and>
      (\<forall>e. \<exists>h' discarded.
         saveToHistory ls e =
           Inr (map object_of h', Some (Json (JArr (map object_of h')))) \<and>
         h' @ discarded = e # filter (\<lambda>x. \<not> same_user x e) h \<and>
         length h' = min MAX_HISTORY (Suc (length (filter (\<lambda>x. \<not> same_user x e) h))))"
proof -
  let ?h = "foldl append_spec [] es"
  have "loadHistory None = Inr (JArr (map object_of []))"
    by (simp add: loadHistory_simps)
  from appends_typed [OF this] obtain ls where
    run: "appends None es = Inr ls" and
    load: "loadHistory ls = Inr (JArr (map object_of ?h))"
    by blast
  have bound: "length ?h \<le> MAX_HISTORY"
    by (simp add: MAX_HISTORY_def length_foldl_append_spec)
  have step: "\<exists>h' discarded.
         saveToHistory ls e =
           Inr (map object_of h', Some (Json (JArr (map object_of h')))) \<and>
         h' @ discarded = e # filter (\<lambda>x. \<not> same_user x e) ?h \<and>
         length h' = min MAX_HISTORY (Suc (length (filter (\<lambda>x. \<not> same_user x e) ?h)))" for e
  proof -
    let ?all = "e # filter (\<lambda>x. \<not> same_user x e) ?h"
    have "saveToHistory ls e =
            Inr (map object_of (take 5 ?all), Some (Json (JArr (map object_of (take 5 ?all)))))"
      using saveToHistory_typed [OF load, of e] by (simp only: append_spec_def)
    moreover have "take 5 ?all @ drop 5 ?all = ?all"
      by (rule append_take_drop_id)
    moreover have "length (take 5 ?all) =
        min MAX_HISTORY (Suc (length (filter (\<lambda>x. \<not> same_user x e) ?h)))"
      by (simp add: MAX_HISTORY_def min.commute)
    ultimately show ?thesis by blast
  qed
  from run load bound step show ?thesis by blast
qed

theorem history_never_exceeds_capacity_witness:
  "\<exists>ls. appends None [sample ''alpha'' True, sample ''bravo'' False, sample ''charlie'' True,
                        sample ''delta'' False, sample ''echo1'' True] = Inr ls \<and>
     saveToHistory ls (sample ''foxtrot'' True) =
       Inr (map object_of [sample ''foxtrot'' True, sample ''echo1'' True,
                           sample ''delta'' False, sample ''charlie'' True,
                           sample ''bravo'' False],
            Some (Json (JArr (map object_of
              [sample ''foxtrot'' True, sample ''echo1'' True, sample ''delta'' False,
               sample ''charlie'' True, sample ''bravo'' False]))))"
proof -
  let ?es = "[sample ''alpha'' True, sample ''bravo'' False, sample ''charlie'' True,
              sample ''delta'' False, sample ''echo1'' True]"
  let ?h = "[sample ''echo1'' True, sample ''delta'' False, sample ''charlie'' True,
             sample ''bravo'' False, sample ''alpha'' True]"
  let ?f = "sample ''foxtrot'' True"
  have run: "appends None ?es = Inr (Some (Json (JArr (map object_of ?h))))"
    by (simp add: saveToHistory_absent
        saveToHistory_stored [of "[x]" for x, simplified]
        saveToHistory_stored [of "[x, y]" for x y, simplified]
        saveToHistory_stored [of "[x, y, z]" for x y z, simplified]
        saveToHistory_stored [of "[x, y, z, w]" for x y z w, simplified]
        append_spec_def same_user_sample toLowerCase_def lower_unit_def lit_def)
  from history_never_exceeds_capacity [of ?es] obtain ls h where
    a: "appends None ?es = Inr ls" and
    l: "loadHistory ls = Inr (JArr (map object_of h))" and
    s: "\<forall>e. \<exists>h' discarded.
         saveToHistory ls e =
           Inr (map object_of h', Some (Json (JArr (map object_of h')))) \<and>
         h' @ discarded = e # filter (\<lambda>x. \<not> same_user x e) h \<and>
         length h' = min MAX_HISTORY (Suc (length (filter (\<lambda>x. \<not> same_user x e) h)))"
    by blast
  from a run have ls: "ls = Some (Json (JArr (map object_of ?h)))" by simp
  with l have "map object_of h = map object_of ?h"
    by (simp add: loadHistory_simps)
  then have h: "h = ?h" by (simp only: map_object_of_inj)
  have others: "filter (\<lambda>x. \<not> same_user x ?f) ?h = ?h"
    by (simp add: same_user_sample toLowerCase_def lower_unit_def lit_def)
  from s obtain h' discarded where
    saved: "saveToHistory ls ?f =
              Inr (map object_of h', Some (Json (JArr (map object_of h'))))" and
    whole: "h' @ discarded = ?f # filter (\<lambda>x. \<not> same_user x ?f) h" and
    len: "length h' = min MAX_HISTORY (Suc (length (filter (\<lambda>x. \<not> same_user x ?f) h)))"
    by blast
  from len have five: "length h' = 5"
    unfolding h others by (simp add: MAX_HISTORY_def)
  have "h' = take (length h') (h' @ discarded)" by simp
  also have "\<dots> = take 5 (?f # ?h)"
    by (simp only: whole h others five)
  finally have "h' = [?f, sample ''echo1'' True, sample ''delta'' False,
                      sample ''charlie'' True, sample ''bravo'' False]"
    by simp
  with saved a show ?thesis by simp
qed

text \<open>
  C2. After any sequence of appends that starts from an empty history, no two usernames
  of the stored list are equal up to case, and a further append of any entry stores a
  list of which the same is true: the new entry in front, followed by the first four of
  the old entries whose username differs from the new one up to case, in their order.
  An old entry with the same username up to case is thus removed and the new entry takes
  the first place.
\<close>

theorem history_has_no_duplicate_usernames:
  "\<exists>ls h. appends None es = Inr ls \<and> loadHistory ls = Inr (JArr (map object_of h)) \<and>
      distinct (map (\<lambda>x. toLowerCase (username x)) h) \<and>
      (\<forall>e. \<exists>h'.
         saveToHistory ls e =
           Inr (map object_of h', Some (Json (JArr (map object_of h')))) \<and>
         distinct (map (\<lambda>x. toLowerCase (username x)) h') \<and>
         h' = e # take 4 (filter (\<lambda>x. \<not> same_user x e) h))"
proof -
  let ?h = "foldl append_spec [] es"
  have "loadHistory None = Inr (JArr (map object_of []))"
    by (simp add: loadHistory_simps)
  from appends_typed [OF this] obtain ls where
    run: "appends None es = Inr ls" and
    load: "loadHistory ls = Inr (JArr (map object_of ?h))"
    by blast
  have inv: "distinct (map (\<lambda>x. toLowerCase (username x)) ?h)"
    by (rule distinct_foldl_append_spec)
  have step: "\<exists>h'.
         saveToHistory ls e =
           Inr (map object_of h', Some (Json (JArr (map object_of h')))) \<and>
         distinct (map (\<lambda>x. toLowerCase (username x)) h') \<and>
         h' = e # take 4 (filter (\<lambda>x. \<not> same_user x e) ?h)" for e
  proof (intro exI conjI)
    show "saveToHistory ls e =
            Inr (map object_of (append_spec ?h e),
                 Some (Json (JArr (map object_of (append_spec ?h e)))))"
      by (rule saveToHistory_typed [OF load])
    show "distinct (map (\<lambda>x. toLowerCase (username x)) (append_spec ?h e))"
      by (rule distinct_append_spec [OF inv])
    show "append_spec ?h e = e # take 4 (filter (\<lambda>x. \<not> same_user x e) ?h)"
      by (simp add: append_spec_def)
  qed
  from run load inv step show ?thesis by blast
qed

theorem history_has_no_duplicate_usernames_witness:
  "\<exists>ls. appends None [sample ''shroud'' False, sample ''ninja'' False] = Inr ls \<and>
     saveToHistory ls (sample ''SHROUD'' True) =
       Inr (map object_of [sample ''SHROUD'' True, sample ''ninja'' False],
            Some (Json (JArr (map object_of
              [sample ''SHROUD'' True, sample ''ninja'' False]))))"
proof -
  let ?es = "[sample ''shroud'' False, sample ''ninja'' False]"
  let ?h = "[sample ''ninja'' False, sample ''shroud'' False]"
  let ?e = "sample ''SHROUD'' True"
  have run: "appends None ?es = Inr (Some (Json (JArr (map object_of ?h))))"
    by (simp add: saveToHistory_absent
        saveToHistory_stored [of "[x]" for x, simplified]
        append_spec_def same_user_sample toLowerCase_def lower_unit_def lit_def)
  from history_has_no_duplicate_usernames [of ?es] obtain ls h where
    a: "appends None ?es = Inr ls" and
    l: "loadHistory ls = Inr (JArr (map object_of h))" and
    s: "\<forall>e. \<exists>h'.
         saveToHistory ls e =
           Inr (map object_of h', Some (Json (JArr (map object_of h')))) \<and>
         distinct (map (\<lambda>x. toLowerCase (username x)) h') \<and>
         h' = e # take 4 (filter (\<lambda>x. \<not> same_user x e) h)"
    by blast
  from a run have "ls = Some (Json (JArr (map object_of ?h)))" by simp
  with l have "map object_of h = map object_of ?h"
    by (simp add: loadHistory_simps)
  then have h: "h = ?h" by (simp only: map_object_of_inj)
  have others: "filter (\<lambda>x. \<not> same_user x ?e) ?h = [sample ''ninja'' False]"
    by (simp add: same_user_sample toLowerCase_def lower_unit_def lit_def)
  from s obtain h' where
    saved: "saveToHistory ls ?e =
              Inr (map object_of h', Some (Json (JArr (map object_of h'))))" and
    h': "h' = ?e # take 4 (filter (\<lambda>x. \<not> same_user x ?e) h)"
    by blast
  from h' have "h' = [?e, sample ''ninja'' False]"
    by (simp only: h others) simp
  with saved a show ?thesis by simp
qed

section \<open>Results on the history store: any stored item\<close>

lemma other_user_entry_like:
  "(\<exists>b. other_user e h = Inr b) \<longleftrightarrow> entry_like h"
  by (cases h) (auto simp: other_user_def entry_like_def split: option.splits js_value.splits)

lemma other_user_same_user:
  "same_user e' e \<Longrightarrow> other_user e' = other_user e"
  by (rule ext) (auto simp: other_user_def same_user_def split: sum.splits)

lemma filter_js_Inr:
  "filter_js p xs = Inr ys \<Longrightarrow>
     ys = filter (\<lambda>x. p x = Inr True) xs \<and> (\<forall>x \<in> set xs. \<exists>b. p x = Inr b)"
  by (induction xs arbitrary: ys) (auto split: sum.splits if_splits)

lemma filter_js_total:
  "\<forall>x \<in> set xs. \<exists>b. p x = Inr b \<Longrightarrow>
     filter_js p xs = Inr (filter (\<lambda>x. p x = Inr True) xs)"
  by (induction xs) auto

lemma filter_js_kept:
  "\<forall>x \<in> set xs. p x = Inr True \<Longrightarrow> filter_js p xs = Inr xs"
  by (induction xs) auto

lemma saveToHistory_Inr:
  assumes "saveToHistory ls e = Inr (u, ls')"
  shows "\<exists>xs. loadHistory ls = Inr (JArr xs) \<and> list_all entry_like xs \<and>
              u = object_of e # take 4 (filter (\<lambda>x. other_user e x = Inr True) xs) \<and>
              ls' = Some (Json (JArr u))"
proof -
  from assms obtain v where v: "loadHistory ls = Inr v"
    by (auto simp: saveToHistory_def split: sum.splits)
  with assms obtain xs where xs: "v = JArr xs"
    by (cases v) (simp_all add: saveToHistory_def)
  from assms v xs obtain ys where ys: "filter_js (other_user e) xs = Inr ys"
    by (auto simp: saveToHistory_def split: sum.splits)
  from filter_js_Inr [OF ys]
  have f: "ys = filter (\<lambda>x. other_user e x = Inr True) xs"
    and t: "\<forall>x \<in> set xs. \<exists>b. other_user e x = Inr b"
    by simp_all
  from t have "list_all entry_like xs"
    by (simp add: list_all_iff other_user_entry_like)
  moreover from assms v xs ys f
  have "u = object_of e # take 4 (filter (\<lambda>x. other_user e x = Inr True) xs)"
    and "ls' = Some (Json (JArr u))"
    by (auto simp: saveToHistory_def MAX_HISTORY_def JSON_stringify_def Let_def)
  ultimately show ?thesis using v xs by simp
qed

lemma saveToHistory_array:
  assumes "loadHistory ls = Inr (JArr xs)" and "list_all entry_like xs"
  shows "saveToHistory ls e =
           Inr (object_of e # take 4 (filter (\<lambda>x. other_user e x = Inr True) xs),
                Some (Json (JArr
                  (object_of e # take 4 (filter (\<lambda>x. other_user e x = Inr True) xs)))))"
proof -
  from assms(2) have "\<forall>x \<in> set xs. \<exists>b. other_user e x = Inr b"
    by (simp add: list_all_iff other_user_entry_like)
  from filter_js_total [OF this] assms(1) show ?thesis
    by (simp add: saveToHistory_def MAX_HISTORY_def JSON_stringify_def Let_def)
qed

lemma well_formed_loadHistory:
  "well_formed ls \<longleftrightarrow> (\<exists>xs. loadHistory ls = Inr (JArr xs) \<and> list_all entry_like xs)"
  by (auto simp: well_formed_def loadHistory_def JSON_parse_def
      split: option.splits json_text.splits js_value.splits)

lemma saveToHistory_well_formed:
  "(\<exists>r. saveToHistory ls e = Inr r) \<longleftrightarrow> well_formed ls"
proof
  assume "\<exists>r. saveToHistory ls e = Inr r"
  then obtain u ls' where "saveToHistory ls e = Inr (u, ls')" by auto
  from saveToHistory_Inr [OF this] show "well_formed ls"
    by (auto simp: well_formed_loadHistory)
next
  assume "well_formed ls"
  then obtain xs where "loadHistory ls = Inr (JArr xs)" and "list_all entry_like xs"
    by (auto simp: well_formed_loadHistory)
  from saveToHistory_array [OF this] show "\<exists>r. saveToHistory ls e = Inr r"
    by blast
qed

lemma saveToHistory_again:
  assumes "saveToHistory ls e = Inr (u, ls')" and "same_user e' e"
  shows "saveToHistory ls' e' =
           Inr (object_of e' # tl u, Some (Json (JArr (object_of e' # tl u))))"
proof -
  let ?p = "\<lambda>x. other_user e x = Inr True"
  from saveToHistory_Inr [OF assms(1)] obtain xs where
    u: "u = object_of e # take 4 (filter ?p xs)" and
    ls': "ls' = Some (Json (JArr u))"
    by blast
  have p: "other_user e' = other_user e"
    by (rule other_user_same_user [OF assms(2)])
  have kept: "\<forall>x \<in> set (take 4 (filter ?p xs)). other_user e x = Inr True"
    by (auto dest: in_set_takeD)
  have "other_user e (object_of e) = Inr False"
    by (simp add: other_user_def object_of_def lit_def)
  with filter_js_kept [OF kept]
  have "filter_js (other_user e) u = Inr (take 4 (filter ?p xs))"
    by (simp add: u)
  then show ?thesis
    by (simp add: saveToHistory_def ls' loadHistory_def JSON_parse_def p
        MAX_HISTORY_def JSON_stringify_def Let_def u)
qed

lemma same_user_refl: "same_user e e"
  by (simp add: same_user_def)

lemma well_formed_examples:
  "well_formed None"
  "well_formed (Some NotJson)"
  "well_formed (Some (Json (JArr (map object_of h))))"
  by (simp_all add: well_formed_def list_all_iff entry_like_def object_of_def lit_def)

text \<open>
  What \<open>loadHistory\<close> does on every stored item: it never throws, and it returns the
  empty array when there is no item and when the item is not JSON.
\<close>

lemma loadHistory_never_throws:
  "\<exists>v. loadHistory ls = Inr v"
  by (simp add: loadHistory_def JSON_parse_def split: option.splits json_text.splits)

lemma loadHistory_empty_iff:
  "loadHistory ls = Inr (JArr []) \<longleftrightarrow>
     ls = None \<or> ls = Some NotJson \<or> ls = Some (Json (JArr []))"
  by (auto simp: loadHistory_def JSON_parse_def split: option.splits json_text.splits)

text \<open>
  C3. The claim is that every corrupt item loads as the empty list. An item that is JSON
  but not a list is returned as it was parsed: the text \<open>null\<close> loads as \<open>null\<close>, the
  text \<open>{"a":1}\<close> as that object.
\<close>

theorem loadHistory_returns_what_was_parsed:
  "loadHistory (Some (Json JNull)) = Inr JNull \<and>
   loadHistory (Some (Json (JObj [(lit ''a'', JNum 1)]))) = Inr (JObj [(lit ''a'', JNum 1)])"
  by (simp add: loadHistory_def JSON_parse_def)

text \<open>
  C6. On a stored item that holds a history, an append returns a list with the entry in
  the first place and no other entry of that username up to case; a second append of the
  same entry returns and stores the same list; and an append of an entry with the same
  username up to case, whatever its other fields, puts that entry in the first place and
  leaves the rest of the list as it was.
\<close>

theorem append_is_idempotent:
  assumes "well_formed ls" and "same_user e' e"
  shows "\<exists>u ls'. saveToHistory ls e = Inr (u, ls') \<and>
           saveToHistory ls' e = Inr (u, ls') \<and>
           u \<noteq> [] \<and> hd u = object_of e \<and>
           list_all (\<lambda>x. other_user e x = Inr True) (tl u) \<and>
           saveToHistory ls' e' =
             Inr (object_of e' # tl u, Some (Json (JArr (object_of e' # tl u))))"
proof -
  from assms(1) obtain u ls' where s: "saveToHistory ls e = Inr (u, ls')"
    using saveToHistory_well_formed [of ls e] by auto
  from saveToHistory_Inr [OF s] have u: "u \<noteq> []" "hd u = object_of e"
    and ls': "ls' = Some (Json (JArr u))"
    and r: "list_all (\<lambda>x. other_user e x = Inr True) (tl u)"
    by (auto simp: list_all_iff dest!: in_set_takeD)
  from u have "object_of e # tl u = u"
    by (cases u) simp_all
  with saveToHistory_again [OF s same_user_refl] ls'
  have "saveToHistory ls' e = Inr (u, ls')" by simp
  with s u r saveToHistory_again [OF s assms(2)] show ?thesis by blast
qed

theorem append_is_idempotent_witness:
  "well_formed (Some (Json (JArr [object_of (sample ''shroud'' False)]))) \<and>
   same_user (sample ''NINJA'' False) (sample ''ninja'' True) \<and>
   (\<exists>ls'. saveToHistory (Some (Json (JArr [object_of (sample ''shroud'' False)])))
               (sample ''ninja'' True) =
             Inr ([object_of (sample ''ninja'' True), object_of (sample ''shroud'' False)], ls') \<and>
           saveToHistory ls' (sample ''ninja'' True) =
             Inr ([object_of (sample ''ninja'' True), object_of (sample ''shroud'' False)], ls') \<and>
           saveToHistory ls' (sample ''NINJA'' False) =
             Inr ([object_of (sample ''NINJA'' False), object_of (sample ''shroud'' False)],
                  Some (Json (JArr
                    [object_of (sample ''NINJA'' False), object_of (sample ''shroud'' False)]))))"
proof -
  let ?ls = "Some (Json (JArr [object_of (sample ''shroud'' False)]))"
  let ?u = "[object_of (sample ''ninja'' True), object_of (sample ''shroud'' False)]"
  have w: "well_formed ?ls"
    using well_formed_examples(3) [of "[sample ''shroud'' False]"] by simp
  have k: "same_user (sample ''NINJA'' False) (sample ''ninja'' True)"
    by (simp add: same_user_sample toLowerCase_def lower_unit_def lit_def)
  have first: "saveToHistory ?ls (sample ''ninja'' True) = Inr (?u, Some (Json (JArr ?u)))"
    using saveToHistory_stored [of "[sample ''shroud'' False]" "sample ''ninja'' True"]
    by (simp add: append_spec_def same_user_sample toLowerCase_def lower_unit_def lit_def)
  from append_is_idempotent [OF w k] obtain u ls' where
    a: "saveToHistory ?ls (sample ''ninja'' True) = Inr (u, ls')" and
    b: "saveToHistory ls' (sample ''ninja'' True) = Inr (u, ls')" and
    c: "saveToHistory ls' (sample ''NINJA'' False) =
          Inr (object_of (sample ''NINJA'' False) # tl u,
               Some (Json (JArr (object_of (sample ''NINJA'' False) # tl u))))"
    by blast
  from a first have "u = ?u" by simp
  with a b c w k show ?thesis by simp
qed

text \<open>
  The round trip on a stored item that holds a history: the append returns, and a load
  after it returns the list that the append has returned and stored, with the new entry
  in the first place.
\<close>

lemma append_then_load:
  assumes "well_formed ls"
  shows "\<exists>u ls'. saveToHistory ls e = Inr (u, ls') \<and> loadHistory ls' = Inr (JArr u) \<and>
           u \<noteq> [] \<and> hd u = object_of e"
proof -
  from assms obtain u ls' where s: "saveToHistory ls e = Inr (u, ls')"
    using saveToHistory_well_formed [of ls e] by auto
  from saveToHistory_Inr [OF s] have "u \<noteq> []" "hd u = object_of e"
    and "loadHistory ls' = Inr (JArr u)"
    by (auto simp: loadHistory_def JSON_parse_def)
  with s show ?thesis by blast
qed

text \<open>
  C7. The claim is for every storage state. On an item that is JSON but not a list of
  entries the append throws and stores nothing: with the text \<open>null\<close> stored,
  \<open>history.filter\<close> is a property read on \<open>null\<close>, and the load after it returns
  \<open>null\<close> again.
\<close>

theorem append_throws_on_parsed_null:
  "saveToHistory (Some (Json JNull)) e = Inl TypeError \<and>
   loadHistory (Some (Json JNull)) = Inr JNull"
  by (simp add: saveToHistory_def loadHistory_def JSON_parse_def)

section \<open>Results on the lookup\<close>

lemma try_block_rejected:
  "fetch env = Rejected e \<Longrightarrow>
     try_block env t st = (Some e, st\<lparr>requests := requests st @ [t]\<rparr>)"
  by (simp add: try_block_def)

lemma try_block_not_ok:
  "fetch env = Response status body \<Longrightarrow> \<not> ok status \<Longrightarrow>
     try_block env t st =
       (Some (Error (lit ''API error: '' @ show_nat status)),
        st\<lparr>requests := requests st @ [t]\<rparr>)"
  by (simp add: try_block_def)

lemma try_block_saved:
  assumes "fetch env = Response status (Inr data)" and "ok status"
    and "get_prop data (lit ''exists'') = Inr ex"
    and "saveToHistory (storage st)
           \<lparr>username = t, available = js_not ex, checkedAt = now env\<rparr> = Inr (u, ls')"
  shows "try_block env t st =
           (None, st\<lparr>requests := requests st @ [t],
                      result := Some \<lparr>username = t, available = js_not ex, checkedAt = now env\<rparr>,
                      history := JArr u, storage := ls'\<rparr>)"
  using assms by (simp add: try_block_def Let_def)

text \<open>
  C8, as amended. For a valid name: when the response has a status outside 200 to 299, the
  error is "API error: " followed by the status in decimal, there is no result, and the
  history and the storage are as before. When \<open>fetch\<close> rejects, the error is the message
  of what was thrown if that is an \<open>Error\<close>, and the connectivity message only if it is
  not; again with no result and with the history and the storage as before.
\<close>

theorem failed_lookup_reports_error:
  assumes "isValidUsername (trimmed_name nameOverride st)"
  shows "(\<forall>status body. fetch env = Response status body \<and> \<not> ok status \<longrightarrow>
            checkUsername env nameOverride st =
              st\<lparr>loading := False, result := None,
                 error := Some (lit ''API error: '' @ show_nat status),
                 requests := requests st @ [trimmed_name nameOverride st]\<rparr>) \<and>
         (\<forall>e. fetch env = Rejected e \<longrightarrow>
            checkUsername env nameOverride st =
              st\<lparr>loading := False, result := None,
                 error := Some (case e of Error m \<Rightarrow> m | NotAnError \<Rightarrow> network_message
                                | _ \<Rightarrow> engine_message env),
                 requests := requests st @ [trimmed_name nameOverride st]\<rparr>)"
proof (intro conjI allI impI)
  fix status body
  assume "fetch env = Response status body \<and> \<not> ok status"
  then show "checkUsername env nameOverride st =
      st\<lparr>loading := False, result := None,
         error := Some (lit ''API error: '' @ show_nat status),
         requests := requests st @ [trimmed_name nameOverride st]\<rparr>"
    by (simp add: checkUsername_valid [OF assms] try_block_not_ok)
next
  fix e
  assume "fetch env = Rejected e"
  then show "checkUsername env nameOverride st =
      st\<lparr>loading := False, result := None,
         error := Some (case e of Error m \<Rightarrow> m | NotAnError \<Rightarrow> network_message
                        | _ \<Rightarrow> engine_message env),
         requests := requests st @ [trimmed_name nameOverride st]\<rparr>"
    by (cases e) (simp_all add: checkUsername_valid [OF assms] try_block_rejected)
qed

lemma shroud_is_valid:
  "trimmed_name (Some (lit ''shroud'')) st = lit ''shroud''"
  "isValidUsername (lit ''shroud'')"
  by (simp_all add: trimmed_name_def trim_def isValidUsername_iff spec_valid_def lit_def
      is_space_def ascii_letter_def)

theorem failed_lookup_reports_error_witness:
  "isValidUsername (trimmed_name (Some (lit ''shroud'')) fresh_state) \<and>
   checkUsername (sample_env (Response 500 (Inl SyntaxError))) (Some (lit ''shroud''))
       fresh_state =
     fresh_state\<lparr>error := Some (lit ''API error: 500''), requests := [lit ''shroud'']\<rparr> \<and>
   checkUsername (sample_env (Rejected NotAnError)) (Some (lit ''shroud'')) fresh_state =
     fresh_state\<lparr>error := Some network_message, requests := [lit ''shroud'']\<rparr>"
proof -
  have v: "isValidUsername (trimmed_name (Some (lit ''shroud'')) fresh_state)"
    by (simp add: shroud_is_valid)
  have s: "lit ''API error: '' @ [53, 48, 48] = lit ''API error: 500''"
    by (simp add: lit_def)
  have f: "fetch (sample_env x) = x" for x
    by (simp add: sample_env_def)
  from failed_lookup_reports_error [OF v, of "sample_env (Response 500 (Inl SyntaxError))"]
  have a: "checkUsername (sample_env (Response 500 (Inl SyntaxError))) (Some (lit ''shroud''))
       fresh_state =
     fresh_state\<lparr>error := Some (lit ''API error: 500''), requests := [lit ''shroud'']\<rparr>"
    by (simp add: f ok_def s shroud_is_valid) (simp add: fresh_state_def)
  from failed_lookup_reports_error [OF v, of "sample_env (Rejected NotAnError)"]
  have b: "checkUsername (sample_env (Rejected NotAnError)) (Some (lit ''shroud'')) fresh_state =
     fresh_state\<lparr>error := Some network_message, requests := [lit ''shroud'']\<rparr>"
    by (simp add: f shroud_is_valid) (simp add: fresh_state_def)
  from v a b show ?thesis by simp
qed

text \<open>
  The claim as it is written fails where no response is obtained: \<open>fetch\<close> rejects
  with a TypeError, an instance of \<open>Error\<close>, and the error shown is its message, here
  "Failed to fetch", not the connectivity message.
\<close>

theorem failed_lookup_message_counterexample:
  "error (checkUsername (sample_env (Rejected (Error (lit ''Failed to fetch''))))
            (Some (lit ''shroud'')) fresh_state) = Some (lit ''Failed to fetch'') \<and>
   lit ''Failed to fetch'' \<noteq> network_message"
proof -
  have v: "isValidUsername (trimmed_name (Some (lit ''shroud'')) fresh_state)"
    by (simp add: shroud_is_valid)
  have "error (checkUsername (sample_env (Rejected (Error (lit ''Failed to fetch''))))
            (Some (lit ''shroud'')) fresh_state) = Some (lit ''Failed to fetch'')"
    by (simp add: checkUsername_valid [OF v] try_block_rejected sample_env_def)
  moreover have "lit ''Failed to fetch'' \<noteq> network_message"
    by (simp add: network_message_def lit_def)
  ultimately show ?thesis by simp
qed

lemma try_block_not_saved:
  assumes "fetch env = Response status (Inr data)" and "ok status"
    and "get_prop data (lit ''exists'') = Inr ex"
    and "saveToHistory (storage st)
           \<lparr>username = t, available = js_not ex, checkedAt = now env\<rparr> = Inl x"
  shows "try_block env t st =
           (Some x, st\<lparr>requests := requests st @ [t],
                       result := Some \<lparr>username = t, available = js_not ex,
                                       checkedAt = now env\<rparr>\<rparr>)"
  using assms by (simp add: try_block_def Let_def)

text \<open>
  A successful lookup on a stored item that holds a history. For a valid name, a response
  with a status from 200 to 299 and a body whose \<open>exists\<close> is a boolean, the entry is
  appended at once: no error is set, and the history shown and the stored item are the
  entry followed by the first four of the stored entries with another username.
\<close>

lemma successful_lookup_on_history:
  assumes "isValidUsername (trimmed_name nameOverride st)"
    and "fetch env = Response status (Inr data)" and "ok status"
    and "get_prop data (lit ''exists'') = Inr (Some (JBool b))"
    and "loadHistory (storage st) = Inr (JArr xs)" and "list_all entry_like xs"
    and "entry = \<lparr>username = trimmed_name nameOverride st, available = \<not> b,
                   checkedAt = now env\<rparr>"
    and "updated = object_of entry # take 4 (filter (\<lambda>x. other_user entry x = Inr True) xs)"
  shows "checkUsername env nameOverride st =
           st\<lparr>loading := False, error := None, result := Some entry,
              history := JArr updated, storage := Some (Json (JArr updated)),
              requests := requests st @ [trimmed_name nameOverride st]\<rparr>"
proof -
  let ?st = "st\<lparr>loading := True, error := None, result := None\<rparr>"
  have "saveToHistory (storage st) entry = Inr (updated, Some (Json (JArr updated)))"
    unfolding assms(8) by (rule saveToHistory_array [OF assms(5) assms(6)])
  then have "saveToHistory (storage ?st)
      \<lparr>username = trimmed_name nameOverride st, available = js_not (Some (JBool b)),
       checkedAt = now env\<rparr> = Inr (updated, Some (Json (JArr updated)))"
    by (simp add: assms(7))
  from try_block_saved [OF assms(2) assms(3) assms(4) this] show ?thesis
    by (simp add: checkUsername_valid [OF assms(1)] assms(7))
qed

text \<open>
  The entry itself is produced on every state: the result is the trimmed name as it was
  typed, \<open>available\<close> the negation of \<open>exists\<close>, and the time of the check.
\<close>

lemma successful_lookup_result:
  assumes "isValidUsername (trimmed_name nameOverride st)"
    and "fetch env = Response status (Inr data)" and "ok status"
    and "get_prop data (lit ''exists'') = Inr (Some (JBool b))"
  shows "result (checkUsername env nameOverride st) =
           Some \<lparr>username = trimmed_name nameOverride st, available = \<not> b,
                 checkedAt = now env\<rparr>"
proof -
  let ?entry = "\<lparr>username = trimmed_name nameOverride st,
                 available = js_not (Some (JBool b)), checkedAt = now env\<rparr>"
  let ?st = "st\<lparr>loading := True, error := None, result := None\<rparr>"
  show ?thesis
  proof (cases "saveToHistory (storage ?st) ?entry")
    case (Inl x)
    from try_block_not_saved [OF assms(2) assms(3) assms(4) this] show ?thesis
      by (simp add: checkUsername_valid [OF assms(1)])
  next
    case (Inr p)
    then obtain u ls' where "saveToHistory (storage ?st) ?entry = Inr (u, ls')"
      by (cases p) simp
    from try_block_saved [OF assms(2) assms(3) assms(4) this] show ?thesis
      by (simp add: checkUsername_valid [OF assms(1)])
  qed
qed

text \<open>
  C9. The claim is that after every successful lookup the entry is appended to the
  history at once. With the text \<open>null\<close> stored, the name "shroud", the status 200 and
  the body \<open>{"exists": true}\<close>, the entry is produced and set as the result, but the
  append throws on \<open>history.filter\<close>: the history shown and the stored item stay as
  they were, and the message of the TypeError is set as the error.
\<close>

theorem successful_lookup_not_appended_on_parsed_null:
  "checkUsername
       \<lparr>fetch = Response 200 (Inr (JObj [(lit ''exists'', JBool True)])),
        now = n, engine_message = m\<rparr>
       (Some (lit ''shroud'')) (fresh_state\<lparr>storage := Some (Json JNull)\<rparr>) =
     fresh_state
       \<lparr>storage := Some (Json JNull),
        result := Some \<lparr>username = lit ''shroud'', available = False, checkedAt = n\<rparr>,
        error := Some m,
        requests := [lit ''shroud'']\<rparr>"
proof -
  let ?env = "\<lparr>fetch = Response 200 (Inr (JObj [(lit ''exists'', JBool True)])),
               now = n, engine_message = m\<rparr>"
  let ?st = "fresh_state\<lparr>storage := Some (Json JNull)\<rparr>"
  let ?st' = "?st\<lparr>loading := True, error := None, result := None\<rparr>"
  have v: "isValidUsername (trimmed_name (Some (lit ''shroud'')) ?st)"
    by (simp add: shroud_is_valid)
  have f: "fetch ?env = Response 200 (Inr (JObj [(lit ''exists'', JBool True)]))"
    by simp
  have k: "ok 200"
    by (simp add: ok_def)
  have g: "get_prop (JObj [(lit ''exists'', JBool True)]) (lit ''exists'') =
             Inr (Some (JBool True))"
    by simp
  have s: "saveToHistory (storage ?st')
             \<lparr>username = lit ''shroud'', available = js_not (Some (JBool True)),
              checkedAt = now ?env\<rparr> = Inl TypeError"
    by (simp add: fresh_state_def saveToHistory_def loadHistory_def JSON_parse_def)
  from try_block_not_saved [OF f k g s]
  have b: "try_block ?env (lit ''shroud'') ?st' =
          (Some TypeError,
           ?st'\<lparr>requests := requests ?st' @ [lit ''shroud''],
                 result := Some \<lparr>username = lit ''shroud'', available = False,
                                 checkedAt = n\<rparr>\<rparr>)"
    by simp
  have "checkUsername ?env (Some (lit ''shroud'')) ?st =
          ?st'\<lparr>requests := requests ?st' @ [lit ''shroud''],
               result := Some \<lparr>username = lit ''shroud'', available = False,
                               checkedAt = n\<rparr>,
               error := Some m, loading := False\<rparr>"
    unfolding checkUsername_valid [OF v] shroud_is_valid b by simp
  then show ?thesis
    by (simp add: fresh_state_def)
qed

end
